theory Spec2Isabelle
  imports Complex_Main "HOL-Library.Multiset"
begin

section \<open>The Odd One Out memory game (src/my-react-app/src/App.js)\<close>

text \<open>
  The component \<open>App\<close> keeps its state in React \<open>useState\<close> cells and changes it in event
  handlers. A handler is modelled as a function from the state of the render it was created
  in to the state of the next render: the record \<open>app\<close> has one field per \<open>useState\<close> cell,
  and three more fields for what the handlers touch outside React: the store of JavaScript
  arrays (arrays are objects, a variable holds a reference), the next unused reference, and
  the hidden state of \<open>Math.random\<close>.

  Numbers are modelled as unbounded integers (scores, tile values, indices) and as
  rationals (the values of \<open>Math.random\<close>); a tile count is a natural number.
\<close>

subsection \<open>Data\<close>

datatype game_state =
  Start | Difficulty | NumberSelection | MemorizeOriginal | OddOneOutRecall
  | RoundWin | OverallWin | GameOver

datatype difficulty = Easy | Medium | Hard

text \<open>The buttons a modal offers; each stands for the closure the source puts in the list.\<close>

datatype modal_action = HomeAction | TryAgainAction | NextRoundAction

type_synonym ref = nat

text \<open>
  The generator behind \<open>Math.random\<close>: the sequence of values it is going to return, and
  how many it has returned so far.
\<close>

record rng =
  randomVals :: "nat \<Rightarrow> rat"
  randomPos :: nat

record app =
  gameState :: game_state
  difficulty :: "difficulty option"
  numTiles :: "nat option"
  originalGridNumbers :: ref
  currentGridNumbers :: ref
  preparedRecallNumbers :: ref
  changedTileIndex :: "int option"
  selectedTileIndex :: "int option"
  roundScore :: int
  totalScore :: int
  feedbackMessage :: string
  showModal :: bool
  modalMessage :: string
  modalActions :: "modal_action list"
  countdown :: int
  heap :: "ref \<Rightarrow> int list"
  nextRef :: ref
  mathRandomState :: rng

definition BASE_SCORE_PER_CORRECT :: int where
  "BASE_SCORE_PER_CORRECT = 20"

definition TOTAL_SCORE_TO_WIN :: int where
  "TOTAL_SCORE_TO_WIN = 100"

definition NUMBER_POOL_MAX :: nat where
  "NUMBER_POOL_MAX = 100"

subsection \<open>Numbers in messages\<close>

text \<open>JavaScript's conversion of an integer to a string, as string concatenation does it.\<close>

definition digitChar :: "nat \<Rightarrow> char" where
  "digitChar d = char_of (48 + d)"

fun showNat :: "nat \<Rightarrow> string" where
  "showNat n = (if n < 10 then [digitChar n] else showNat (n div 10) @ [digitChar (n mod 10)])"

definition showInt :: "int \<Rightarrow> string" where
  "showInt i = (if i < 0 then CHR ''-'' # showNat (nat (- i)) else showNat (nat i))"

text \<open>
  \<open>xs[i]\<close> where \<open>i\<close> may be \<open>null\<close>, negative or past the end: the result is then
  \<open>undefined\<close>, here \<open>None\<close>.
\<close>

definition arrayGet :: "int list \<Rightarrow> int option \<Rightarrow> int option" where
  "arrayGet xs i =
     (case i of
        None \<Rightarrow> None
      | Some j \<Rightarrow> if 0 \<le> j \<and> j < int (length xs) then Some (xs ! nat j) else None)"

definition showElem :: "int option \<Rightarrow> string" where
  "showElem v = (case v of None \<Rightarrow> ''undefined'' | Some n \<Rightarrow> showInt n)"

subsection \<open>The handlers of the state machine\<close>

text \<open>\<open>handleTileClick\<close>: a click selects a tile only during the recall phase.\<close>

definition handleTileClick :: "int \<Rightarrow> app \<Rightarrow> app" where
  "handleTileClick index s =
     (if gameState s = OddOneOutRecall then s\<lparr>selectedTileIndex := Some index\<rparr> else s)"

text \<open>\<open>handleDifficultySelect\<close>.\<close>

definition handleDifficultySelect :: "difficulty \<Rightarrow> app \<Rightarrow> app" where
  "handleDifficultySelect selectedDifficulty s =
     s\<lparr>difficulty := Some selectedDifficulty, totalScore := 0, gameState := NumberSelection\<rparr>"

text \<open>
  The \<open>homeAction\<close> closure built in \<open>handleSubmitRecall\<close> (the modal's Home button), and
  the \<open>onClick\<close> of the Home and New Game buttons under the grid, which is the same without
  \<open>setShowModal(false)\<close>.
\<close>

definition homeAction :: "app \<Rightarrow> app" where
  "homeAction s =
     s\<lparr>gameState := Start, showModal := False, selectedTileIndex := None, totalScore := 0\<rparr>"

definition homeButton :: "app \<Rightarrow> app" where
  "homeButton s = s\<lparr>gameState := Start, selectedTileIndex := None, totalScore := 0\<rparr>"

text \<open>
  \<open>handleSubmitRecall\<close>. The updater passed to \<open>setTotalScore\<close> runs on the pending total,
  which is the total of the render when the handler is the only one queued; the setters it
  calls are applied with it.
\<close>

definition handleSubmitRecall :: "app \<Rightarrow> app" where
  "handleSubmitRecall s =
     (if selectedTileIndex s = None then s\<lparr>feedbackMessage := ''Please select a tile!''\<rparr>
      else if selectedTileIndex s = changedTileIndex s then
        (let prevTotal = totalScore s;
             newTotal = prevTotal + BASE_SCORE_PER_CORRECT
         in if newTotal \<ge> TOTAL_SCORE_TO_WIN then
              s\<lparr>roundScore := BASE_SCORE_PER_CORRECT,
                gameState := OverallWin,
                feedbackMessage := ''You are the CHAMPION!'',
                modalMessage := ''You are the CHAMPION! Final Score: '' @ showInt newTotal,
                modalActions := [HomeAction],
                showModal := True,
                totalScore := newTotal\<rparr>
            else
              s\<lparr>roundScore := BASE_SCORE_PER_CORRECT,
                gameState := RoundWin,
                feedbackMessage := ''Round Complete!'',
                modalMessage := ''Round Complete! Total Score: '' @ showInt newTotal @ ''.'',
                modalActions := [HomeAction, NextRoundAction],
                showModal := True,
                totalScore := newTotal\<rparr>)
      else
        s\<lparr>roundScore := 0,
          gameState := GameOver,
          feedbackMessage := ''Wrong! The changed number was: ''
            @ showElem (arrayGet (heap s (currentGridNumbers s)) (changedTileIndex s)),
          modalMessage := ''Game Over! The changed tile was: ''
            @ showElem (arrayGet (heap s (currentGridNumbers s)) (changedTileIndex s)),
          modalActions := [HomeAction, TryAgainAction],
          showModal := True\<rparr>)"

subsection \<open>Math.random and the arrays\<close>

text \<open>
  \<open>Math.random()\<close> returns a number \<open>r\<close> with \<open>0 \<le> r < 1\<close> and advances the generator.
  The model reads the next entry of the sequence and takes its fractional part, so that
  every sequence of rationals is a random source.
\<close>

definition mathRandom :: "rng \<Rightarrow> rat \<times> rng" where
  "mathRandom g = (frac (randomVals g (randomPos g)), g\<lparr>randomPos := randomPos g + 1\<rparr>)"

text \<open>\<open>Math.floor(Math.random() * n)\<close>.\<close>

definition randomIndex :: "nat \<Rightarrow> rng \<Rightarrow> nat \<times> rng" where
  "randomIndex n g = (let (r, g') = mathRandom g in (nat \<lfloor>r * of_nat n\<rfloor>, g'))"

text \<open>
  \<open>Array.prototype.sort(comparefn)\<close>. The comparator \<open>() => 0.5 - Math.random()\<close> ignores
  its arguments and is not a consistent comparison, so the order \<open>sort\<close> produces is left
  to the JavaScript engine. The engine's algorithm is a parameter of the model: it is given
  the comparator, the elements and the generator, and returns the elements in their new
  order and the generator after the comparisons it made. What the program relies on is
  that the engine only reorders: \<open>permuting\<close>.
\<close>

type_synonym comparator = "int \<Rightarrow> int \<Rightarrow> rng \<Rightarrow> rat \<times> rng"

type_synonym sort_engine = "comparator \<Rightarrow> int list \<Rightarrow> rng \<Rightarrow> int list \<times> rng"

definition randomComparator :: comparator where
  "randomComparator a b g = (let (r, g') = mathRandom g in (1 / 2 - r, g'))"

definition permuting :: "sort_engine \<Rightarrow> bool" where
  "permuting E = (\<forall>cmp xs g. mset (fst (E cmp xs g)) = mset xs)"

text \<open>
  The engine reaches the generator through the comparator only, and the comparator draws
  from it: a sort leaves the sequence of values as it is and moves the position.
\<close>

definition onlyDraws :: "sort_engine \<Rightarrow> bool" where
  "onlyDraws E = (\<forall>xs g. randomVals (snd (E randomComparator xs g)) = randomVals g)"

text \<open>
  An engine to run the program on: insertion sort, which puts \<open>x\<close> after \<open>y\<close> when
  \<open>comparefn(x, y) > 0\<close>.
\<close>

fun insertBy :: "comparator \<Rightarrow> int \<Rightarrow> int list \<Rightarrow> rng \<Rightarrow> int list \<times> rng" where
  "insertBy cmp x [] g = ([x], g)"
| "insertBy cmp x (y # ys) g =
     (let (c, g1) = cmp x y g
      in if c > 0 then (let (zs, g2) = insertBy cmp x ys g1 in (y # zs, g2))
         else (x # y # ys, g1))"

fun insertionSort :: sort_engine where
  "insertionSort cmp [] g = ([], g)"
| "insertionSort cmp (x # xs) g =
     (let (ys, g1) = insertionSort cmp xs g in insertBy cmp x ys g1)"

text \<open>
  A new array object (an array literal, \<open>Array.from\<close>, \<open>slice\<close>, a spread copy): it gets
  the next unused reference.
\<close>

definition newArray :: "int list \<Rightarrow> app \<Rightarrow> ref \<times> app" where
  "newArray xs s = (nextRef s, s\<lparr>heap := (heap s)(nextRef s := xs), nextRef := nextRef s + 1\<rparr>)"

text \<open>\<open>a.sort(() => 0.5 - Math.random())\<close> sorts the array in place and returns it.\<close>

definition arraySort :: "sort_engine \<Rightarrow> ref \<Rightarrow> app \<Rightarrow> ref \<times> app" where
  "arraySort E a s =
     (let (ys, g) = E randomComparator (heap s a) (mathRandomState s)
      in (a, s\<lparr>heap := (heap s)(a := ys), mathRandomState := g\<rparr>))"

text \<open>
  \<open>a[i] = v\<close>. Inside the array the element is overwritten; at \<open>i = length\<close> JavaScript
  extends the array by the element. An index beyond the length would leave holes, which
  an integer list cannot hold; \<open>randomIndex_le\<close> below shows that the program never
  stores there, and the model treats such a store like the one at the length.
\<close>

definition storeAt :: "int list \<Rightarrow> nat \<Rightarrow> int \<Rightarrow> int list" where
  "storeAt xs i v = (if i < length xs then xs[i := v] else xs @ [v])"

definition arrayStore :: "ref \<Rightarrow> nat \<Rightarrow> int \<Rightarrow> app \<Rightarrow> app" where
  "arrayStore a i v s = s\<lparr>heap := (heap s)(a := storeAt (heap s a) i v)\<rparr>"

text \<open>\<open>a.indexOf(v)\<close>: the first position of \<open>v\<close>, or \<open>-1\<close>.\<close>

fun indexOfFrom :: "int list \<Rightarrow> int \<Rightarrow> nat \<Rightarrow> int" where
  "indexOfFrom [] v i = - 1"
| "indexOfFrom (x # xs) v i = (if x = v then int i else indexOfFrom xs v (Suc i))"

definition indexOf :: "int list \<Rightarrow> int \<Rightarrow> int" where
  "indexOf xs v = indexOfFrom xs v 0"

subsection \<open>The number pool\<close>

text \<open>\<open>Array.from({ length: NUMBER_POOL_MAX }, (_, i) => i + 1)\<close>.\<close>

definition allPossible :: "int list" where
  "allPossible = map (\<lambda>i. int i + 1) [0..<NUMBER_POOL_MAX]"

text \<open>
  \<open>generateUniqueNumbers\<close>; the result is the reference of the array \<open>slice\<close> returns.
  The count is a number of tiles, a natural number, for which \<open>slice(0, actualCount)\<close>
  takes the first \<open>actualCount\<close> elements.
\<close>

definition generateUniqueNumbers :: "sort_engine \<Rightarrow> nat \<Rightarrow> app \<Rightarrow> ref \<times> app" where
  "generateUniqueNumbers E count' s =
     (let actualCount = min count' NUMBER_POOL_MAX;
          (allPossibleNumbers, s1) = newArray allPossible s;
          (shuffledNumbers, s2) = arraySort E allPossibleNumbers s1
      in newArray (take actualCount (heap s2 shuffledNumbers)) s2)"

text \<open>The numbers a call of \<open>generateUniqueNumbers\<close> returns: the content of its array.\<close>

definition draw :: "sort_engine \<Rightarrow> nat \<Rightarrow> app \<Rightarrow> int list" where
  "draw E count' s = (let (a, s') = generateUniqueNumbers E count' s in heap s' a)"

subsection \<open>Round setup\<close>

text \<open>
  The \<open>do ... while\<close> loop of \<open>setupOddOneOutRound\<close>. It reads the array
  \<open>initialNumbers\<close>, which nothing changes while it runs, and calls \<open>Math.random\<close>.
  Nothing bounds the number of its iterations, so the function is partial: \<open>None\<close> is the
  loop that never ends.
\<close>

partial_function (option) newChangedValueLoop ::
  "int list \<Rightarrow> nat \<Rightarrow> rng \<Rightarrow> (int \<times> rng) option" where
  "newChangedValueLoop initialNumbers originalIndexToChange g =
     (let (r, g1) = mathRandom g;
          newChangedValue = \<lfloor>r * of_nat NUMBER_POOL_MAX\<rfloor> + 1
      in if newChangedValue \<in> set initialNumbers
            \<or> Some newChangedValue = arrayGet initialNumbers (Some (int originalIndexToChange))
         then newChangedValueLoop initialNumbers originalIndexToChange g1
         else Some (newChangedValue, g1))"

declare newChangedValueLoop.simps [code]

text \<open>
  The candidate \<open>Math.floor(Math.random() * NUMBER_POOL_MAX) + 1\<close> that the loop draws in
  its iteration number \<open>k\<close> (from 0) when it starts with the generator \<open>g\<close>.
\<close>

definition candidateAt :: "rng \<Rightarrow> nat \<Rightarrow> int" where
  "candidateAt g k = \<lfloor>frac (randomVals g (randomPos g + k)) * of_nat NUMBER_POOL_MAX\<rfloor> + 1"

text \<open>
  A sequence of values in which every number of the pool keeps coming: from every position
  on, each of 1 to 100 is the candidate of some later draw. A loop that waits for a value
  of the pool ends on such a sequence, and only a generator that avoids a value for ever
  fails to have the property.
\<close>

definition everyValueRecurs :: "(nat \<Rightarrow> rat) \<Rightarrow> bool" where
  "everyValueRecurs vals =
     (\<forall>p. \<forall>v \<in> {1..100}. \<exists>k. \<lfloor>frac (vals (p + k)) * of_nat NUMBER_POOL_MAX\<rfloor> + 1 = v)"

text \<open>The local variables of \<open>setupOddOneOutRound\<close> that the state does not keep.\<close>

record round_locals =
  loc_initialNumbers :: ref
  loc_finalRecallNumbers :: ref
  loc_originalIndexToChange :: nat
  loc_newChangedValue :: int

text \<open>
  \<open>setupOddOneOutRound\<close>, returning its local variables beside the state; the handler
  itself, which returns nothing, is \<open>setupOddOneOutRound\<close> below.
\<close>

definition setupOddOneOutRoundLocals ::
  "sort_engine \<Rightarrow> nat \<Rightarrow> app \<Rightarrow> (round_locals \<times> app) option" where
  "setupOddOneOutRoundLocals E count' s =
     (let s1 = s\<lparr>roundScore := 0, selectedTileIndex := None\<rparr>;
          (initialNumbers, s2) = generateUniqueNumbers E count' s1;
          (originalCopy, s3) = newArray (heap s2 initialNumbers) s2;
          s4 = s3\<lparr>originalGridNumbers := originalCopy\<rparr>;
          (finalRecallNumbers, s5) = newArray (heap s4 initialNumbers) s4;
          (originalIndexToChange, g) =
             randomIndex (length (heap s5 initialNumbers)) (mathRandomState s5)
      in case newChangedValueLoop (heap s5 initialNumbers) originalIndexToChange g of
           None \<Rightarrow> None
         | Some (newChangedValue, g1) \<Rightarrow>
             (let s6 = s5\<lparr>mathRandomState := g1\<rparr>;
                  s7 = arrayStore finalRecallNumbers originalIndexToChange newChangedValue s6;
                  (shuffledFinalRecallNumbers, s8) = arraySort E finalRecallNumbers s7;
                  finalChangedIndexInScrambled =
                     indexOf (heap s8 shuffledFinalRecallNumbers) newChangedValue;
                  s9 = s8\<lparr>preparedRecallNumbers := shuffledFinalRecallNumbers,
                          changedTileIndex := Some finalChangedIndexInScrambled\<rparr>;
                  (currentCopy, s10) = newArray (heap s9 initialNumbers) s9
              in Some (\<lparr>loc_initialNumbers = initialNumbers,
                         loc_finalRecallNumbers = finalRecallNumbers,
                         loc_originalIndexToChange = originalIndexToChange,
                         loc_newChangedValue = newChangedValue\<rparr>,
                       s10\<lparr>currentGridNumbers := currentCopy\<rparr>)))"

definition setupOddOneOutRound :: "sort_engine \<Rightarrow> nat \<Rightarrow> app \<Rightarrow> app option" where
  "setupOddOneOutRound E count' s = map_option snd (setupOddOneOutRoundLocals E count' s)"

text \<open>
  The round a run of \<open>setupOddOneOutRound\<close> leaves behind, read from the state and the
  store it ends in: the numbers shown first, the layout of the recall phase, the index and
  the value of the changed tile, and the position the value was put at before shuffling.
\<close>

record round =
  original :: "int list"
  recallLayout :: "int list"
  changedIndex :: "int option"
  changedValue :: int
  indexToChange :: nat

definition roundOf :: "round_locals \<times> app \<Rightarrow> round" where
  "roundOf x =
     \<lparr>original = heap (snd x) (originalGridNumbers (snd x)),
      recallLayout = heap (snd x) (preparedRecallNumbers (snd x)),
      changedIndex = changedTileIndex (snd x),
      changedValue = loc_newChangedValue (fst x),
      indexToChange = loc_originalIndexToChange (fst x)\<rparr>"

definition buildRound :: "sort_engine \<Rightarrow> nat \<Rightarrow> app \<Rightarrow> round option" where
  "buildRound E count' s = map_option roundOf (setupOddOneOutRoundLocals E count' s)"

text \<open>
  The tile counts of the selection buttons (the \<open>switch\<close> on the difficulty in the
  render), the only counts \<open>handleNumTilesSelect\<close> is called with.
\<close>

fun countOptions :: "difficulty option \<Rightarrow> nat list" where
  "countOptions (Some Easy) = [4, 5, 6, 7, 8]"
| "countOptions (Some Medium) = [8, 9, 10, 11, 12]"
| "countOptions (Some Hard) = [12, 13, 14, 15, 16]"
| "countOptions None = []"

text \<open>
  \<open>handleNumTilesSelect\<close> and \<open>handleNextRoundOrTryAgain\<close>, the two callers of round setup;
  the second passes the count the first has stored in \<open>numTiles\<close>.
\<close>

definition handleNumTilesSelect :: "sort_engine \<Rightarrow> nat \<Rightarrow> app \<Rightarrow> app option" where
  "handleNumTilesSelect E count' s =
     map_option (\<lambda>s'. s'\<lparr>gameState := MemorizeOriginal\<rparr>)
       (setupOddOneOutRound E count' (s\<lparr>numTiles := Some count', feedbackMessage := []\<rparr>))"

definition handleNextRoundOrTryAgain :: "sort_engine \<Rightarrow> app \<Rightarrow> app option" where
  "handleNextRoundOrTryAgain E s =
     (let s1 = s\<lparr>showModal := False\<rparr>
      in case numTiles s1 of
           None \<Rightarrow> Some s1
         | Some n \<Rightarrow>
             map_option (\<lambda>s'. s'\<lparr>gameState := MemorizeOriginal, feedbackMessage := []\<rparr>)
               (setupOddOneOutRound E n s1))"

text \<open>
  The callback of the memorize timer (the \<open>setTimeout\<close> in the effect): it shows the
  prepared array, which the grid then shares with \<open>preparedRecallNumbers\<close>. When it
  fires is a matter of real time and is not modelled.
\<close>

definition memorizeTimerFired :: "app \<Rightarrow> app" where
  "memorizeTimerFired s =
     s\<lparr>feedbackMessage := ''Find the changed number!'',
       currentGridNumbers := preparedRecallNumbers s,
       gameState := OddOneOutRecall,
       countdown := 0\<rparr>"

subsection \<open>The first render, and a run\<close>

text \<open>
  The initial values of the \<open>useState\<close> cells; each \<open>useState([])\<close> is an array of its own.
  The generator is whatever the engine starts with.
\<close>

definition initialApp :: "rng \<Rightarrow> app" where
  "initialApp g =
     \<lparr>gameState = Start, difficulty = None, numTiles = None,
      originalGridNumbers = 0, currentGridNumbers = 1, preparedRecallNumbers = 2,
      changedTileIndex = None, selectedTileIndex = None,
      roundScore = 0, totalScore = 0, feedbackMessage = [],
      showModal = False, modalMessage = [], modalActions = [],
      countdown = 0, heap = (\<lambda>_. []), nextRef = 3, mathRandomState = g\<rparr>"

text \<open>
  A generator to run the program on. Its values are \<open>3/4\<close> except at a few positions:
  with insertion sort, the first shuffle of the pool moves \<open>1\<close> behind \<open>2\<close>, the index
  drawn for four tiles is \<open>2\<close>, the first candidate value is \<open>2\<close> (a member of the
  numbers drawn, so the loop goes round again) and the second is \<open>55\<close>.
\<close>

definition demoVals :: "nat \<Rightarrow> rat" where
  "demoVals i =
     (if i = 98 then 1 / 4
      else if i = 100 then 3 / 5
      else if i = 101 then 1 / 100
      else if i = 102 then 27 / 50
      else if i = 103 then 1 / 4
      else if i = 105 then 1 / 4
      else 3 / 4)"

definition demoRandom :: rng where
  "demoRandom = \<lparr>randomVals = demoVals, randomPos = 0\<rparr>"

text \<open>
  A generator with the same first 200 values that goes through all hundredths afterwards,
  so that every number of the pool keeps coming.
\<close>

definition fairVals :: "nat \<Rightarrow> rat" where
  "fairVals i = (if i < 200 then demoVals i else of_nat (i mod 100) / 100)"

definition fairRandom :: rng where
  "fairRandom = \<lparr>randomVals = fairVals, randomPos = 0\<rparr>"

text \<open>
  A session in the recall phase of the round that this generator gives for four tiles: the
  numbers shown first are \<open>[2, 1, 3, 4]\<close>, the grid shows \<open>[1, 2, 4, 55]\<close>, the changed tile
  is at index 3, and three rounds have been won before.
\<close>

definition recallSession :: app where
  "recallSession =
     (initialApp demoRandom)
       \<lparr>gameState := OddOneOutRecall, difficulty := Some Easy, numTiles := Some 4,
        originalGridNumbers := 5, currentGridNumbers := 6, preparedRecallNumbers := 6,
        changedTileIndex := Some 3, totalScore := 60,
        feedbackMessage := ''Find the changed number!'',
        heap := (\<lambda>_. [])(5 := [2, 1, 3, 4], 6 := [1, 2, 4, 55]), nextRef := 8\<rparr>"

section \<open>Properties\<close>

subsection \<open>The random source and the sort\<close>

lemma mathRandom_range: "0 \<le> fst (mathRandom g) \<and> fst (mathRandom g) < 1"
  by (simp add: mathRandom_def frac_lt_1)

lemma randomIndex_le: "fst (randomIndex n g) \<le> n"
proof -
  obtain r g' where rg: "mathRandom g = (r, g')" by (cases "mathRandom g")
  have r: "0 \<le> r" "r < 1" using mathRandom_range [of g] rg by simp_all
  have "r * of_nat n \<le> of_nat n" using r by (simp add: mult_left_le_one_le)
  then have "\<lfloor>r * of_nat n\<rfloor> \<le> int n" by (simp add: floor_le_iff)
  then show ?thesis using rg by (simp add: randomIndex_def)
qed

lemma randomIndex_less: "0 < n \<Longrightarrow> fst (randomIndex n g) < n"
proof -
  assume n: "0 < n"
  obtain r g' where rg: "mathRandom g = (r, g')" by (cases "mathRandom g")
  have r: "0 \<le> r" "r < 1" using mathRandom_range [of g] rg by simp_all
  have "r * of_nat n < of_nat n" using r n by simp
  then have "\<lfloor>r * of_nat n\<rfloor> < int n" by (simp add: floor_less_iff)
  moreover have "0 \<le> \<lfloor>r * of_nat n\<rfloor>" using r by simp
  ultimately show ?thesis using rg by (simp add: randomIndex_def nat_less_iff)
qed

lemma mset_insertBy: "mset (fst (insertBy cmp x ys g)) = add_mset x (mset ys)"
  by (induction ys arbitrary: g) (simp_all add: Let_def case_prod_beta)

lemma mset_insertionSort: "mset (fst (insertionSort cmp xs g)) = mset xs"
  by (induction xs arbitrary: g) (simp_all add: Let_def case_prod_beta mset_insertBy)

lemma permuting_insertionSort: "permuting insertionSort"
  by (simp add: permuting_def mset_insertionSort)

lemma randomVals_mathRandom: "randomVals (snd (mathRandom g)) = randomVals g"
  by (simp add: mathRandom_def)

lemma randomVals_randomIndex: "randomVals (snd (randomIndex n g)) = randomVals g"
  by (simp add: randomIndex_def case_prod_beta randomVals_mathRandom)

lemma randomVals_insertBy:
  "randomVals (snd (insertBy randomComparator x ys g)) = randomVals g"
  by (induction ys arbitrary: g)
     (simp_all add: Let_def case_prod_beta randomComparator_def randomVals_mathRandom)

lemma randomVals_insertionSort:
  "randomVals (snd (insertionSort randomComparator xs g)) = randomVals g"
  by (induction xs arbitrary: g) (simp_all add: Let_def case_prod_beta randomVals_insertBy)

lemma onlyDraws_insertionSort: "onlyDraws insertionSort"
  by (simp add: onlyDraws_def randomVals_insertionSort)

lemma everyValueRecurs_fairVals: "everyValueRecurs fairVals"
  unfolding everyValueRecurs_def
proof (intro allI ballI)
  fix p :: nat and v :: int
  assume v: "v \<in> {1..100}"
  define n where "n = nat (v - 1)"
  have n: "n < 100" "v = int n + 1" using v by (auto simp: n_def)
  define q where "q = p + 2"
  define k where "k = n + q * 100 - p"
  have le: "p \<le> q * 100" "200 \<le> q * 100" by (simp_all add: q_def)
  have pk: "p + k = n + q * 100" using le(1) by (simp add: k_def)
  have m: "(p + k) mod 100 = n" using n(1) by (simp add: pk)
  have big: "\<not> p + k < 200" using le(2) by (simp add: pk)
  have val: "fairVals (p + k) = of_nat n / 100" using big by (simp add: fairVals_def m)
  have r: "(0 :: rat) \<le> of_nat n / 100" "(of_nat n / 100 :: rat) < 1" using n(1) by simp_all
  have fr: "frac (of_nat n / 100 :: rat) = of_nat n / 100" using r by (simp add: frac_eq)
  have "\<lfloor>frac (fairVals (p + k)) * of_nat NUMBER_POOL_MAX\<rfloor> + 1 = v"
    by (simp add: val fr NUMBER_POOL_MAX_def n(2))
  then show "\<exists>k. \<lfloor>frac (fairVals (p + k)) * of_nat NUMBER_POOL_MAX\<rfloor> + 1 = v" ..
qed


subsection \<open>indexOf\<close>

lemma indexOfFrom_member:
  "v \<in> set xs \<Longrightarrow> \<exists>i < length xs. indexOfFrom xs v k = int (k + i) \<and> xs ! i = v"
proof (induction xs arbitrary: k)
  case Nil
  then show ?case by simp
next
  case (Cons x xs)
  show ?case
  proof (cases "x = v")
    case True
    then show ?thesis by auto
  next
    case False
    with Cons.prems have "v \<in> set xs" by simp
    from Cons.IH [OF this, of "Suc k"] obtain i where
      "i < length xs" "indexOfFrom xs v (Suc k) = int (Suc k + i)" "xs ! i = v" by blast
    with False show ?thesis by (intro exI [of _ "Suc i"]) simp
  qed
qed

lemma indexOf_member:
  "v \<in> set xs \<Longrightarrow> \<exists>i < length xs. indexOf xs v = int i \<and> xs ! i = v"
  using indexOfFrom_member [of v xs 0] by (simp add: indexOf_def)

subsection \<open>The number pool\<close>

lemma allPossible_props:
  "distinct allPossible" "length allPossible = 100" "set allPossible = {1..100}"
proof -
  show "distinct allPossible" by (simp add: allPossible_def distinct_map inj_on_def)
  show "length allPossible = 100" by (simp add: allPossible_def NUMBER_POOL_MAX_def)
  show "set allPossible = {1..100}"
  proof
    show "set allPossible \<subseteq> {1..100}" by (auto simp: allPossible_def NUMBER_POOL_MAX_def)
    show "{1..100} \<subseteq> set allPossible"
    proof
      fix x :: int assume "x \<in> {1..100}"
      then have "nat (x - 1) < 100" "x = int (nat (x - 1)) + 1" by auto
      then have "x \<in> (\<lambda>i. int i + 1) ` {0..<100}" by (metis atLeastLessThan_iff image_eqI zero_le)
      then show "x \<in> set allPossible" by (simp add: allPossible_def NUMBER_POOL_MAX_def)
    qed
  qed
qed

lemma generateUniqueNumbers_eq:
  "generateUniqueNumbers E count' s =
     (let p = E randomComparator allPossible (mathRandomState s)
      in (nextRef s + 1,
          s\<lparr>heap := (heap s)(nextRef s := fst p,
                               nextRef s + 1 := take (min count' NUMBER_POOL_MAX) (fst p)),
            nextRef := nextRef s + 2,
            mathRandomState := snd p\<rparr>))"
  by (simp add: generateUniqueNumbers_def newArray_def arraySort_def Let_def case_prod_beta)

lemma draw_eq:
  "draw E count' s =
     take (min count' NUMBER_POOL_MAX) (fst (E randomComparator allPossible (mathRandomState s)))"
  by (simp add: draw_def generateUniqueNumbers_eq Let_def)

lemma draw_props:
  assumes "permuting E"
  shows "distinct (draw E count' s)" and "set (draw E count' s) \<subseteq> {1..100}"
    and "length (draw E count' s) = min count' 100"
proof -
  define ys where "ys = fst (E randomComparator allPossible (mathRandomState s))"
  have m: "mset ys = mset allPossible" using assms by (simp add: permuting_def ys_def)
  have h: "draw E count' s = take (min count' 100) ys"
    by (simp add: draw_eq ys_def NUMBER_POOL_MAX_def)
  have d: "distinct ys" using m allPossible_props(1) by (metis mset_eq_imp_distinct_iff)
  have s: "set ys = {1..100}" using m allPossible_props(3) by (metis mset_eq_setD)
  have l: "length ys = 100" using m allPossible_props(2) by (metis mset_eq_length)
  show "distinct (draw E count' s)" using d h by simp
  show "set (draw E count' s) \<subseteq> {1..100}" using s h set_take_subset by fastforce
  show "length (draw E count' s) = min count' 100" using l h by simp
qed

subsection \<open>The loop\<close>

lemma newChangedValueLoop_result:
  assumes "newChangedValueLoop xs idx g = Some y"
  shows "fst y \<notin> set xs \<and> Some (fst y) \<noteq> arrayGet xs (Some (int idx))
         \<and> 1 \<le> fst y \<and> fst y \<le> 100"
  using assms
proof (induct rule: newChangedValueLoop.raw_induct [rotated 1, consumes 1, case_names step])
  case (step loop xs idx g y)
  define r where "r = fst (mathRandom g)"
  define v where "v = \<lfloor>r * of_nat NUMBER_POOL_MAX\<rfloor> + 1"
  have body: "(if v \<in> set xs \<or> Some v = arrayGet xs (Some (int idx))
               then loop xs idx (snd (mathRandom g)) else Some (v, snd (mathRandom g))) = Some y"
    using step(2) by (auto simp: Let_def case_prod_beta r_def v_def split: if_splits)
  show ?case
  proof (cases "v \<in> set xs \<or> Some v = arrayGet xs (Some (int idx))")
    case True
    then have "loop xs idx (snd (mathRandom g)) = Some y" using body by simp
    from step(1) [OF this] show ?thesis .
  next
    case False
    then have y: "y = (v, snd (mathRandom g))" using body by simp
    have r: "0 \<le> r" "r < 1" using mathRandom_range [of g] by (simp_all add: r_def)
    have "0 \<le> r * 100" "r * 100 < 100" using r by simp_all
    then have "0 \<le> \<lfloor>r * 100\<rfloor>" "\<lfloor>r * 100\<rfloor> < 100" by (simp_all add: floor_less_iff)
    then have "1 \<le> v" "v \<le> 100" by (simp_all add: v_def NUMBER_POOL_MAX_def)
    then show ?thesis using False y by auto
  qed
qed


lemma arrayGet_member: "arrayGet xs i = Some v \<Longrightarrow> v \<in> set xs"
  by (auto simp: arrayGet_def split: option.splits if_splits)

lemma candidateAt_step: "candidateAt (snd (mathRandom g)) k = candidateAt g (Suc k)"
  by (simp add: candidateAt_def mathRandom_def)

lemma newChangedValueLoop_returns:
  "candidateAt g k \<notin> set xs \<Longrightarrow> \<exists>y. newChangedValueLoop xs idx g = Some y"
proof (induction k arbitrary: g)
  case 0
  then have a: "\<lfloor>fst (mathRandom g) * of_nat NUMBER_POOL_MAX\<rfloor> + 1 \<notin> set xs"
    by (simp add: candidateAt_def mathRandom_def)
  then have b: "Some (\<lfloor>fst (mathRandom g) * of_nat NUMBER_POOL_MAX\<rfloor> + 1)
      \<noteq> arrayGet xs (Some (int idx))"
    using arrayGet_member by metis
  show ?case
    by (subst newChangedValueLoop.simps) (use a b in \<open>simp add: Let_def case_prod_beta\<close>)
next
  case (Suc k)
  then have "candidateAt (snd (mathRandom g)) k \<notin> set xs" by (simp add: candidateAt_step)
  from Suc.IH [OF this] obtain y where
    y: "newChangedValueLoop xs idx (snd (mathRandom g)) = Some y" ..
  show ?case
    by (subst newChangedValueLoop.simps) (use y in \<open>simp add: Let_def case_prod_beta\<close>)
qed


lemma countOptions_range: "c \<in> set (countOptions d) \<Longrightarrow> 4 \<le> c \<and> c \<le> 16"
  by (cases d rule: countOptions.cases) auto

subsection \<open>Round setup\<close>

lemma setupOddOneOutRoundLocals_eq:
  "setupOddOneOutRoundLocals E count' s =
     (let p = E randomComparator allPossible (mathRandomState s);
          drawn = take (min count' NUMBER_POOL_MAX) (fst p);
          q = randomIndex (length drawn) (snd p);
          a = nextRef s
      in map_option
           (\<lambda>y. let rec = E randomComparator (storeAt drawn (fst q) (fst y)) (snd y)
                in (\<lparr>loc_initialNumbers = Suc a, loc_finalRecallNumbers = Suc (Suc (Suc a)),
                     loc_originalIndexToChange = fst q, loc_newChangedValue = fst y\<rparr>,
                    s\<lparr>roundScore := 0, selectedTileIndex := None,
                      originalGridNumbers := Suc (Suc a),
                      preparedRecallNumbers := Suc (Suc (Suc a)),
                      changedTileIndex := Some (indexOf (fst rec) (fst y)),
                      currentGridNumbers := Suc (Suc (Suc (Suc a))),
                      heap := (heap s)(a := fst p, Suc a := drawn, Suc (Suc a) := drawn,
                                       Suc (Suc (Suc a)) := fst rec, Suc (Suc (Suc (Suc a))) := drawn),
                      nextRef := Suc (Suc (Suc (Suc (Suc a)))),
                      mathRandomState := snd rec\<rparr>))
           (newChangedValueLoop drawn (fst q) (snd q)))"
  by (simp add: setupOddOneOutRoundLocals_def generateUniqueNumbers_eq newArray_def
      arraySort_def arrayStore_def Let_def case_prod_beta
      split: option.split)


lemma buildRound_eq:
  "buildRound E count' s =
     (let drawn = draw E count' s;
          q = randomIndex (length drawn)
                (snd (E randomComparator allPossible (mathRandomState s)))
      in map_option
           (\<lambda>y. let rec = fst (E randomComparator (storeAt drawn (fst q) (fst y)) (snd y))
                in \<lparr>original = drawn, recallLayout = rec,
                    changedIndex = Some (indexOf rec (fst y)),
                    changedValue = fst y, indexToChange = fst q\<rparr>)
           (newChangedValueLoop drawn (fst q) (snd q)))"
  by (simp add: buildRound_def setupOddOneOutRoundLocals_eq draw_eq roundOf_def Let_def
      option.map_comp comp_def)

lemma buildRound_SomeD:
  assumes "buildRound E count' s = Some R"
  shows "original R = draw E count' s"
    and "indexToChange R = fst (randomIndex (length (original R))
            (snd (E randomComparator allPossible (mathRandomState s))))"
    and "changedValue R \<notin> set (original R)"
    and "Some (changedValue R) \<noteq> arrayGet (original R) (Some (int (indexToChange R)))"
    and "1 \<le> changedValue R" and "changedValue R \<le> 100"
    and "\<exists>g. recallLayout R =
            fst (E randomComparator
                  (storeAt (original R) (indexToChange R) (changedValue R)) g)"
    and "changedIndex R = Some (indexOf (recallLayout R) (changedValue R))"
proof -
  define drawn where "drawn = draw E count' s"
  define q where "q = randomIndex (length drawn)
                (snd (E randomComparator allPossible (mathRandomState s)))"
  from assms obtain y where loop: "newChangedValueLoop drawn (fst q) (snd q) = Some y"
    and R: "R = \<lparr>original = drawn,
                 recallLayout = fst (E randomComparator (storeAt drawn (fst q) (fst y)) (snd y)),
                 changedIndex = Some (indexOf
                   (fst (E randomComparator (storeAt drawn (fst q) (fst y)) (snd y))) (fst y)),
                 changedValue = fst y, indexToChange = fst q\<rparr>"
    by (auto simp: buildRound_eq Let_def drawn_def q_def)
  note res = newChangedValueLoop_result [OF loop]
  show "original R = draw E count' s" by (simp add: R drawn_def)
  show "indexToChange R = fst (randomIndex (length (original R))
            (snd (E randomComparator allPossible (mathRandomState s))))"
    by (simp add: R q_def)
  show "changedValue R \<notin> set (original R)" using res by (simp add: R)
  show "Some (changedValue R) \<noteq> arrayGet (original R) (Some (int (indexToChange R)))"
    using res by (simp add: R)
  show "1 \<le> changedValue R" "changedValue R \<le> 100" using res by (simp_all add: R)
  show "\<exists>g. recallLayout R =
            fst (E randomComparator
                  (storeAt (original R) (indexToChange R) (changedValue R)) g)"
    by (auto simp: R)
  show "changedIndex R = Some (indexOf (recallLayout R) (changedValue R))" by (simp add: R)
qed

lemma mset_storeAt:
  "mset (storeAt xs i v) =
     (if i < length xs then add_mset v (mset xs - {#xs ! i#}) else add_mset v (mset xs))"
  by (simp add: storeAt_def mset_update)

lemma filter_absent_storeAt:
  assumes "v \<notin> set xs"
  shows "filter_mset (\<lambda>x. x \<notin> set xs) (mset (storeAt xs i v)) = {#v#}"
proof -
  have sub: "filter_mset (\<lambda>x. x \<notin> set xs) M = {#}" if "M \<subseteq># mset xs" for M
    using that by (auto dest: mset_subset_eqD)
  have "filter_mset (\<lambda>x. x \<notin> set xs) (mset xs - {#xs ! i#}) = {#}"
    by (rule sub) simp
  moreover have "filter_mset (\<lambda>x. x \<notin> set xs) (mset xs) = {#}"
    by (rule sub) simp
  ultimately show ?thesis using assms by (simp add: mset_storeAt)
qed


lemma missing_value:
  assumes "distinct xs" and "set xs \<subseteq> {1..100 :: int}" and "length xs < 100"
  shows "\<exists>v \<in> {1..100}. v \<notin> set xs"
proof (rule ccontr)
  assume "\<not> (\<exists>v \<in> {1..100}. v \<notin> set xs)"
  then have "set xs = {1..100}" using assms(2) by auto
  then have "card (set xs) = 100" by simp
  then show False using assms(1,3) by (simp add: distinct_card)
qed

lemma buildRound_returns:
  assumes "permuting E" and "onlyDraws E" and "count' < 100"
    and "everyValueRecurs (randomVals (mathRandomState s))"
  shows "\<exists>R. buildRound E count' s = Some R"
proof -
  define drawn where "drawn = draw E count' s"
  define q where "q = randomIndex (length drawn)
                (snd (E randomComparator allPossible (mathRandomState s)))"
  have vals: "randomVals (snd q) = randomVals (mathRandomState s)"
    using assms(2) by (simp add: q_def randomVals_randomIndex onlyDraws_def)
  have "length drawn < 100"
    using draw_props(3) [OF assms(1), of count' s] assms(3) by (simp add: drawn_def)
  with draw_props(1,2) [OF assms(1), of count' s]
  obtain v where v: "v \<in> {1..100}" "v \<notin> set drawn"
    using missing_value [of drawn] by (auto simp: drawn_def)
  from assms(4) v(1) obtain k where
    "\<lfloor>frac (randomVals (mathRandomState s) (randomPos (snd q) + k)) * of_nat NUMBER_POOL_MAX\<rfloor> + 1
       = v"
    unfolding everyValueRecurs_def by blast
  then have "candidateAt (snd q) k = v" by (simp add: candidateAt_def vals)
  with v(2) have "candidateAt (snd q) k \<notin> set drawn" by simp
  from newChangedValueLoop_returns [OF this] obtain y where
    "newChangedValueLoop drawn (fst q) (snd q) = Some y" by blast
  then show ?thesis by (simp add: buildRound_eq Let_def drawn_def q_def)
qed

lemma buildRound_full_pool:
  assumes "permuting E" and "100 \<le> count'"
  shows "buildRound E count' s = None"
proof (rule ccontr)
  assume "buildRound E count' s \<noteq> None"
  then obtain R where R: "buildRound E count' s = Some R" by auto
  note D = buildRound_SomeD [OF R]
  have "length (original R) = 100"
    using draw_props(3) [OF assms(1), of count' s] assms(2) by (simp add: D(1))
  moreover have "distinct (original R)" "set (original R) \<subseteq> {1..100}"
    using draw_props(1,2) [OF assms(1), of count' s] by (simp_all add: D(1))
  ultimately have "card (set (original R)) = card {1..100 :: int}"
    and "set (original R) \<subseteq> {1..100}"
    by (simp_all add: distinct_card)
  then have "set (original R) = {1..100}"
    by (intro card_subset_eq) simp_all
  with D(3,5,6) show False by auto
qed

lemma round_props:
  assumes "permuting E" and "buildRound E count' s = Some R"
  shows "changedValue R \<notin> set (original R)
         \<and> Some (changedValue R) \<noteq> arrayGet (original R) (Some (int (indexToChange R)))
         \<and> filter (\<lambda>x. x \<notin> set (original R)) (recallLayout R) = [changedValue R]
         \<and> (\<exists>i < length (recallLayout R).
               changedIndex R = Some (int i) \<and> recallLayout R ! i = changedValue R)"
proof -
  note D = buildRound_SomeD [OF assms(2)]
  from D(7) obtain g where rec: "recallLayout R =
      fst (E randomComparator (storeAt (original R) (indexToChange R) (changedValue R)) g)"
    by blast
  have m: "mset (recallLayout R)
      = mset (storeAt (original R) (indexToChange R) (changedValue R))"
    using assms(1) by (simp add: rec permuting_def)
  have "mset (filter (\<lambda>x. x \<notin> set (original R)) (recallLayout R)) = {#changedValue R#}"
    by (simp add: m filter_absent_storeAt [OF D(3)])
  then have f: "filter (\<lambda>x. x \<notin> set (original R)) (recallLayout R) = [changedValue R]"
    by (simp only: mset_single_iff)
  have "changedValue R \<in># mset (recallLayout R)"
    by (simp add: m mset_storeAt)
  then have "changedValue R \<in> set (recallLayout R)" by simp
  from indexOf_member [OF this] D(8)
  have "\<exists>i < length (recallLayout R).
          changedIndex R = Some (int i) \<and> recallLayout R ! i = changedValue R"
    by auto
  with D(3,4) f show ?thesis by simp
qed

lemma layout_props:
  assumes "permuting E" and "0 < count'" and "buildRound E count' s = Some R"
  shows "length (recallLayout R) = length (original R)
         \<and> indexToChange R < length (original R)
         \<and> mset (recallLayout R) =
             add_mset (changedValue R) (mset (original R) - {#original R ! indexToChange R#})"
proof -
  note D = buildRound_SomeD [OF assms(3)]
  have "length (original R) = min count' 100"
    using draw_props(3) [OF assms(1)] by (simp add: D(1))
  then have pos: "0 < length (original R)" using assms(2) by simp
  have i: "indexToChange R < length (original R)"
    by (subst D(2)) (rule randomIndex_less [OF pos])
  from D(7) obtain g where rec: "recallLayout R =
      fst (E randomComparator (storeAt (original R) (indexToChange R) (changedValue R)) g)"
    by blast
  have m: "mset (recallLayout R)
      = mset (storeAt (original R) (indexToChange R) (changedValue R))"
    using assms(1) by (simp add: rec permuting_def)
  have "length (recallLayout R)
      = length (storeAt (original R) (indexToChange R) (changedValue R))"
    using m by (rule mset_eq_length)
  then have "length (recallLayout R) = length (original R)" using i by (simp add: storeAt_def)
  then show ?thesis using i m by (simp add: mset_storeAt)
qed

subsection \<open>The run on the demonstration generator\<close>

lemma demo_draw: "draw insertionSort 4 (initialApp demoRandom) = [2, 1, 3, 4]"
  by code_simp

lemma demo_round:
  "buildRound insertionSort 4 (initialApp demoRandom) =
     Some \<lparr>original = [2, 1, 3, 4], recallLayout = [1, 2, 4, 55], changedIndex = Some 3,
           changedValue = 55, indexToChange = 2\<rparr>"
  by code_simp

lemma fair_round:
  "buildRound insertionSort 4 (initialApp fairRandom) =
     Some \<lparr>original = [2, 1, 3, 4], recallLayout = [1, 2, 4, 55], changedIndex = Some 3,
           changedValue = 55, indexToChange = 2\<rparr>"
  by code_simp


section \<open>The claims\<close>

subsection \<open>Submitting a selection\<close>

text \<open>
  C1. In the recall state, with a selection that is the round's changed index, submit adds
  exactly 20 to the total score (so the score does not decrease), and the next state is
  \<open>overall_win\<close> if the new total is at least 100 and \<open>round_win\<close> otherwise.
\<close>

theorem submit_correct_awards_20:
  assumes "gameState s = OddOneOutRecall"
    and "selectedTileIndex s = Some i" and "changedTileIndex s = Some i"
  shows "totalScore (handleSubmitRecall s) = totalScore s + 20
         \<and> totalScore s \<le> totalScore (handleSubmitRecall s)
         \<and> gameState (handleSubmitRecall s)
             = (if 100 \<le> totalScore (handleSubmitRecall s) then OverallWin else RoundWin)"
  using assms
  by (simp add: handleSubmitRecall_def Let_def BASE_SCORE_PER_CORRECT_def TOTAL_SCORE_TO_WIN_def)

theorem submit_correct_awards_20_witness:
  "gameState (handleTileClick 3 recallSession) = OddOneOutRecall
   \<and> selectedTileIndex (handleTileClick 3 recallSession) = Some 3
   \<and> changedTileIndex (handleTileClick 3 recallSession) = Some 3
   \<and> totalScore (handleTileClick 3 recallSession) = 60
   \<and> totalScore (handleSubmitRecall (handleTileClick 3 recallSession)) = 80
   \<and> gameState (handleSubmitRecall (handleTileClick 3 recallSession)) = RoundWin"
  using submit_correct_awards_20 [of "handleTileClick 3 recallSession" 3]
  by (simp add: handleTileClick_def recallSession_def initialApp_def)

text \<open>
  C4. In the recall state, with a selection that is not the round's changed index, submit
  goes to \<open>game_over\<close>, the score of the round is 0 and the total score is what it was.
\<close>

theorem submit_wrong_game_over:
  assumes "gameState s = OddOneOutRecall"
    and "selectedTileIndex s = Some i" and "changedTileIndex s \<noteq> Some i"
  shows "gameState (handleSubmitRecall s) = GameOver
         \<and> roundScore (handleSubmitRecall s) = 0
         \<and> totalScore (handleSubmitRecall s) = totalScore s"
  using assms by (simp add: handleSubmitRecall_def)

theorem submit_wrong_game_over_witness:
  "gameState (handleTileClick 1 recallSession) = OddOneOutRecall
   \<and> selectedTileIndex (handleTileClick 1 recallSession) = Some 1
   \<and> changedTileIndex (handleTileClick 1 recallSession) \<noteq> Some 1
   \<and> gameState (handleSubmitRecall (handleTileClick 1 recallSession)) = GameOver
   \<and> roundScore (handleSubmitRecall (handleTileClick 1 recallSession)) = 0
   \<and> totalScore (handleSubmitRecall (handleTileClick 1 recallSession)) = 60"
  using submit_wrong_game_over [of "handleTileClick 1 recallSession" 1]
  by (simp add: handleTileClick_def recallSession_def initialApp_def)

text \<open>
  C6. Submit without a selection changes the feedback message and nothing else: the state
  of the game, both scores and the selection stay, and the handler returns normally.
\<close>

theorem submit_without_selection:
  assumes "selectedTileIndex s = None"
  shows "handleSubmitRecall s = s\<lparr>feedbackMessage := ''Please select a tile!''\<rparr>"
  using assms by (simp add: handleSubmitRecall_def)

theorem submit_without_selection_witness:
  "selectedTileIndex recallSession = None
   \<and> handleSubmitRecall recallSession
       = recallSession\<lparr>feedbackMessage := ''Please select a tile!''\<rparr>
   \<and> gameState (handleSubmitRecall recallSession) = OddOneOutRecall
   \<and> totalScore (handleSubmitRecall recallSession) = 60"
proof -
  have h: "selectedTileIndex recallSession = None"
    by (simp add: recallSession_def initialApp_def)
  from submit_without_selection [OF h] h show ?thesis by (simp add: recallSession_def)
qed

text \<open>
  C10. Submit looks at the selection only, never at the state of the game: with a
  selection, its result in any state is its result in the recall state. A selection left
  over from the round and equal to the changed index earns 20 points again; any other one
  ends the game.
\<close>

theorem submit_ignores_game_state:
  assumes "selectedTileIndex s = Some i"
  shows "handleSubmitRecall s = handleSubmitRecall (s\<lparr>gameState := OddOneOutRecall\<rparr>)
         \<and> (if changedTileIndex s = Some i
             then totalScore (handleSubmitRecall s) = totalScore s + 20
                  \<and> gameState (handleSubmitRecall s)
                      = (if 100 \<le> totalScore s + 20 then OverallWin else RoundWin)
             else totalScore (handleSubmitRecall s) = totalScore s
                  \<and> gameState (handleSubmitRecall s) = GameOver)"
  using assms
  by (simp add: handleSubmitRecall_def Let_def BASE_SCORE_PER_CORRECT_def TOTAL_SCORE_TO_WIN_def)

theorem submit_ignores_game_state_witness:
  "gameState (handleSubmitRecall (handleTileClick 3 recallSession)) = RoundWin
   \<and> selectedTileIndex (handleSubmitRecall (handleTileClick 3 recallSession)) = Some 3
   \<and> changedTileIndex (handleSubmitRecall (handleTileClick 3 recallSession)) = Some 3
   \<and> totalScore (handleSubmitRecall (handleTileClick 3 recallSession)) = 80
   \<and> totalScore (handleSubmitRecall (handleSubmitRecall (handleTileClick 3 recallSession))) = 100
   \<and> gameState (handleSubmitRecall (handleSubmitRecall (handleTileClick 3 recallSession)))
       = OverallWin"
proof -
  define s where "s = handleSubmitRecall (handleTileClick 3 recallSession)"
  have f: "gameState s = RoundWin" "selectedTileIndex s = Some 3"
    "changedTileIndex s = Some 3" "totalScore s = 80"
    by (simp_all add: s_def handleSubmitRecall_def handleTileClick_def recallSession_def
        initialApp_def Let_def BASE_SCORE_PER_CORRECT_def TOTAL_SCORE_TO_WIN_def)
  from submit_ignores_game_state [OF f(2), THEN conjunct2] f
  show ?thesis by (simp add: s_def)
qed

subsection \<open>Going home\<close>

text \<open>
  C7. From every session, whatever its state, score and selection, the home action (the
  Home button of the modal, and the Home and New Game buttons under the grid) leads to the
  state \<open>start\<close> with no selection and a total score of 0; doing it again changes nothing.
\<close>

theorem home_resets_session:
  "gameState (homeAction s) = Start \<and> selectedTileIndex (homeAction s) = None
   \<and> totalScore (homeAction s) = 0
   \<and> gameState (homeButton s) = Start \<and> selectedTileIndex (homeButton s) = None
   \<and> totalScore (homeButton s) = 0
   \<and> homeAction (homeAction s) = homeAction s \<and> homeButton (homeButton s) = homeButton s"
  by (simp add: homeAction_def homeButton_def)

subsection \<open>The number pool\<close>

text \<open>
  C5. For every count, on an engine whose sort only reorders, the numbers drawn are
  pairwise distinct, each lies between 1 and 100, and there are \<open>count\<close> of them when
  \<open>count \<le> 100\<close> and 100 of them otherwise; the draw always returns.
\<close>

theorem draw_distinct_in_range:
  assumes "permuting E"
  shows "distinct (draw E count' s)
         \<and> (\<forall>x \<in> set (draw E count' s). 1 \<le> x \<and> x \<le> 100)
         \<and> length (draw E count' s) = (if count' \<le> 100 then count' else 100)"
  using draw_props [OF assms, of count' s] by auto

theorem draw_distinct_in_range_witness:
  "permuting insertionSort
   \<and> draw insertionSort 4 (initialApp demoRandom) = [2, 1, 3, 4]
   \<and> distinct (draw insertionSort 4 (initialApp demoRandom))
   \<and> list_all (\<lambda>x. 1 \<le> x \<and> x \<le> 100) (draw insertionSort 4 (initialApp demoRandom))
   \<and> length (draw insertionSort 4 (initialApp demoRandom)) = 4
   \<and> length (draw insertionSort 150 (initialApp demoRandom)) = 100"
  using draw_distinct_in_range [OF permuting_insertionSort, of 4 "initialApp demoRandom"]
    draw_distinct_in_range [OF permuting_insertionSort, of 150 "initialApp demoRandom"]
    permuting_insertionSort demo_draw
  by (simp add: list_all_iff)

subsection \<open>The round\<close>

text \<open>
  C2. On an engine whose sort only reorders, every round that round setup builds has
  these properties: the changed value is not among the original numbers and is not the
  value read at the index it is stored at; exactly one element of the recall layout is
  absent from the original numbers, and it is the changed value; the changed index is a
  position of the recall layout, and the changed value is there. And round setup does
  build a round, for every count below 100, when the engine only draws from the generator
  and every number of the pool keeps coming in the generator's sequence.
\<close>

theorem round_changed_value_absent:
  assumes "permuting E"
  shows "(\<forall>R. buildRound E count' s = Some R \<longrightarrow>
            changedValue R \<notin> set (original R)
            \<and> Some (changedValue R) \<noteq> arrayGet (original R) (Some (int (indexToChange R)))
            \<and> filter (\<lambda>x. x \<notin> set (original R)) (recallLayout R) = [changedValue R]
            \<and> (\<exists>i < length (recallLayout R).
                  changedIndex R = Some (int i) \<and> recallLayout R ! i = changedValue R))
         \<and> (onlyDraws E \<and> count' < 100 \<and> everyValueRecurs (randomVals (mathRandomState s))
              \<longrightarrow> (\<exists>R. buildRound E count' s = Some R))"
  using round_props [OF assms] buildRound_returns [OF assms] by blast

theorem round_changed_value_absent_witness:
  "permuting insertionSort \<and> onlyDraws insertionSort \<and> (4 :: nat) < 100
   \<and> everyValueRecurs (randomVals (mathRandomState (initialApp fairRandom)))
   \<and> buildRound insertionSort 4 (initialApp fairRandom) =
       Some \<lparr>original = [2, 1, 3, 4], recallLayout = [1, 2, 4, 55], changedIndex = Some 3,
             changedValue = 55, indexToChange = 2\<rparr>
   \<and> 55 \<notin> set [2, 1, 3, 4 :: int]
   \<and> Some 55 \<noteq> arrayGet [2, 1, 3, 4] (Some 2)
   \<and> filter (\<lambda>x. x \<notin> set [2, 1, 3, 4]) [1, 2, 4, 55 :: int] = [55]
   \<and> (\<exists>i < length [1, 2, 4, 55 :: int].
         Some (3 :: int) = Some (int i) \<and> [1, 2, 4, 55 :: int] ! i = 55)"
proof -
  have fair: "everyValueRecurs (randomVals (mathRandomState (initialApp fairRandom)))"
    by (simp add: initialApp_def fairRandom_def everyValueRecurs_fairVals)
  note T = round_changed_value_absent
    [OF permuting_insertionSort, of 4 "initialApp fairRandom"]
  from T [THEN conjunct2] onlyDraws_insertionSort fair
  have "\<exists>R. buildRound insertionSort 4 (initialApp fairRandom) = Some R" by simp
  moreover from T [THEN conjunct1] fair_round
  have "55 \<notin> set [2, 1, 3, 4 :: int]
   \<and> Some 55 \<noteq> arrayGet [2, 1, 3, 4] (Some 2)
   \<and> filter (\<lambda>x. x \<notin> set [2, 1, 3, 4]) [1, 2, 4, 55 :: int] = [55]
   \<and> (\<exists>i < length [1, 2, 4, 55 :: int].
         Some (3 :: int) = Some (int i) \<and> [1, 2, 4, 55 :: int] ! i = 55)"
    by fastforce
  ultimately show ?thesis
    using permuting_insertionSort onlyDraws_insertionSort fair fair_round by simp
qed

text \<open>
  C3. For every tile count the game offers, on an engine whose sort only reorders, every
  round that round setup builds has a recall layout as long as the original numbers, the
  index of the substitution is a position of them, and the recall layout has the elements
  of the original numbers with the one at that index replaced by the changed value. And
  round setup does build a round when the engine only draws from the generator and every
  number of the pool keeps coming in the generator's sequence.
\<close>

theorem recall_layout_one_substitution:
  assumes "permuting E" and "count' \<in> set (countOptions d)"
  shows "(\<forall>R. buildRound E count' s = Some R \<longrightarrow>
            length (recallLayout R) = length (original R)
            \<and> indexToChange R < length (original R)
            \<and> mset (recallLayout R) =
                add_mset (changedValue R)
                  (mset (original R) - {#original R ! indexToChange R#}))
         \<and> (onlyDraws E \<and> everyValueRecurs (randomVals (mathRandomState s))
              \<longrightarrow> (\<exists>R. buildRound E count' s = Some R))"
proof -
  from countOptions_range [OF assms(2)] have c: "0 < count'" "count' < 100" by simp_all
  show ?thesis
    using layout_props [OF assms(1) c(1)] buildRound_returns [OF assms(1) _ c(2)] by blast
qed

theorem recall_layout_one_substitution_witness:
  "permuting insertionSort \<and> 4 \<in> set (countOptions (Some Easy))
   \<and> onlyDraws insertionSort
   \<and> everyValueRecurs (randomVals (mathRandomState (initialApp fairRandom)))
   \<and> buildRound insertionSort 4 (initialApp fairRandom) =
       Some \<lparr>original = [2, 1, 3, 4], recallLayout = [1, 2, 4, 55], changedIndex = Some 3,
             changedValue = 55, indexToChange = 2\<rparr>
   \<and> length [1, 2, 4, 55 :: int] = length [2, 1, 3, 4 :: int]
   \<and> (2 :: nat) < length [2, 1, 3, 4 :: int]
   \<and> mset [1, 2, 4, 55 :: int] = add_mset 55 (mset [2, 1, 3, 4] - {#[2, 1, 3, 4] ! 2#})"
proof -
  have fair: "everyValueRecurs (randomVals (mathRandomState (initialApp fairRandom)))"
    by (simp add: initialApp_def fairRandom_def everyValueRecurs_fairVals)
  have opt: "4 \<in> set (countOptions (Some Easy))" by simp
  note T = recall_layout_one_substitution
    [OF permuting_insertionSort opt, of "initialApp fairRandom"]
  from T [THEN conjunct2] onlyDraws_insertionSort fair
  have "\<exists>R. buildRound insertionSort 4 (initialApp fairRandom) = Some R" by simp
  moreover from T [THEN conjunct1] fair_round
  have "length [1, 2, 4, 55 :: int] = length [2, 1, 3, 4 :: int]
   \<and> (2 :: nat) < length [2, 1, 3, 4 :: int]
   \<and> mset [1, 2, 4, 55 :: int] = add_mset 55 (mset [2, 1, 3, 4] - {#[2, 1, 3, 4] ! 2#})"
    by fastforce
  ultimately show ?thesis
    using permuting_insertionSort onlyDraws_insertionSort fair fair_round opt by simp
qed

text \<open>
  C9. Round setup leaves the stored original numbers as they were drawn: after it, the
  array behind \<open>originalGridNumbers\<close> holds the numbers its call of the draw returned
  (the draw runs on the state after the two resets that open the handler), and so does
  the array the draw returned; the array that received the substitution and was sorted in
  place is the one behind \<open>preparedRecallNumbers\<close>, a different object from both.
\<close>

theorem setup_keeps_original:
  assumes "setupOddOneOutRoundLocals E count' s = Some (L, s')"
  shows "heap s' (originalGridNumbers s')
           = draw E count' (s\<lparr>roundScore := 0, selectedTileIndex := None\<rparr>)
         \<and> heap s' (loc_initialNumbers L)
           = draw E count' (s\<lparr>roundScore := 0, selectedTileIndex := None\<rparr>)
         \<and> preparedRecallNumbers s' = loc_finalRecallNumbers L
         \<and> originalGridNumbers s' \<noteq> loc_finalRecallNumbers L
         \<and> loc_initialNumbers L \<noteq> loc_finalRecallNumbers L
         \<and> originalGridNumbers s' \<noteq> loc_initialNumbers L"
  using assms
  by (auto simp: setupOddOneOutRoundLocals_eq draw_eq Let_def)

theorem setup_keeps_original_witness:
  "\<exists>L s'. setupOddOneOutRoundLocals insertionSort 4 (initialApp demoRandom) = Some (L, s')
     \<and> draw insertionSort 4 (initialApp demoRandom) = [2, 1, 3, 4]
     \<and> heap s' (originalGridNumbers s') = [2, 1, 3, 4]
     \<and> heap s' (preparedRecallNumbers s') = [1, 2, 4, 55]
     \<and> originalGridNumbers s' \<noteq> preparedRecallNumbers s'"
proof -
  from demo_round obtain x where
    x: "setupOddOneOutRoundLocals insertionSort 4 (initialApp demoRandom) = Some x"
    and r: "roundOf x = \<lparr>original = [2, 1, 3, 4], recallLayout = [1, 2, 4, 55],
              changedIndex = Some 3, changedValue = 55, indexToChange = 2\<rparr>"
    by (auto simp: buildRound_def)
  obtain L s' where Ls: "x = (L, s')" by (cases x)
  have "recallLayout (roundOf x) = [1, 2, 4, 55]" by (simp add: r)
  then have p: "heap s' (preparedRecallNumbers s') = [1, 2, 4, 55]"
    by (simp add: roundOf_def Ls)
  from setup_keeps_original [OF x [unfolded Ls]] demo_draw p x Ls show ?thesis
    by (simp add: draw_eq)
qed

subsection \<open>The random source\<close>



end
